theory Spec2Isabelle
  imports Complex_Main
begin

section \<open>JavaScript numbers\<close>

text \<open>
  Every number of \<^verbatim>\<open>script.js\<close> is an IEEE-754 binary64 value. A finite double is
  held as the rational it denotes, the three non-finite values are constructors of their
  own. Signed zero is not tracked: every divisor of the program that can be zero is a
  non-negative integer property (\<^verbatim>\<open>img.height\<close>, \<^verbatim>\<open>file.size\<close>), so a zero
  divisor is \<open>+0\<close>.
\<close>

datatype jsnum = Num rat | PInf | NInf | NaN

text \<open>Round to the nearest integer, ties to even: the rounding of the significand.\<close>

definition rne :: "rat \<Rightarrow> int" where
  "rne x = (let f = \<lfloor>x\<rfloor>; d = x - of_int f
            in if d < 1/2 then f else if 1/2 < d then f + 1
               else if even f then f else f + 1)"

text \<open>
  \<open>ndigits b n\<close> counts the divisions by \<open>b\<close> that bring \<open>n\<close> below \<open>b\<close>: the
  integer logarithm of \<open>n\<close> to the base \<open>b\<close>, for \<open>1 \<le> n\<close>.
\<close>

function ndigits :: "int \<Rightarrow> int \<Rightarrow> nat" where
  "ndigits b n = (if b < 2 \<or> n < b then 0 else Suc (ndigits b (n div b)))"
  by pat_completeness auto
termination
  by (relation "measure (\<lambda>(b, n). nat n)") (auto intro: int_div_less_self)

declare ndigits.simps [simp del]

text \<open>\<open>ilog b x\<close> is the integer \<open>e\<close> with \<open>b ^ e \<le> x < b ^ (e + 1)\<close>, for \<open>0 < x\<close>.\<close>

definition ilog :: "int \<Rightarrow> rat \<Rightarrow> int" where
  "ilog b x = (if 1 \<le> x then int (ndigits b \<lfloor>x\<rfloor>)
               else - int (Suc (ndigits b (\<lceil>1 / x\<rceil> - 1))))"

text \<open>
  \<open>fl x\<close> is the double nearest to \<open>x\<close> (round to nearest, ties to even, 53 bits of
  significand). The exponent is unbounded, so \<open>fl\<close> is the IEEE rounding on the normal
  range \<open>2 ^ -1022 \<le> \<bar>x\<bar> < 2 ^ 1024\<close>; sums, differences, products and quotients of
  integers below \<open>2 ^ 53\<close>, as the program forms them, stay in that range.
\<close>

definition fl :: "rat \<Rightarrow> rat" where
  "fl x = (if x = 0 then 0
           else let u = 2 powi (ilog 2 \<bar>x\<bar> - 52) in u * of_int (rne (x / u)))"

text \<open>The operators \<^verbatim>\<open>/\<close>, \<^verbatim>\<open>*\<close> and \<^verbatim>\<open>-\<close> on numbers.\<close>

fun fdiv :: "jsnum \<Rightarrow> jsnum \<Rightarrow> jsnum" where
  "fdiv (Num a) (Num b) =
     (if b = 0 then (if a = 0 then NaN else if 0 < a then PInf else NInf)
      else Num (fl (a / b)))"
| "fdiv (Num a) PInf = Num 0"
| "fdiv (Num a) NInf = Num 0"
| "fdiv PInf (Num b) = (if 0 \<le> b then PInf else NInf)"
| "fdiv NInf (Num b) = (if 0 \<le> b then NInf else PInf)"
| "fdiv _ _ = NaN"

declare fdiv.simps [simp del]

fun fmul :: "jsnum \<Rightarrow> jsnum \<Rightarrow> jsnum" where
  "fmul (Num a) (Num b) = Num (fl (a * b))"
| "fmul (Num a) PInf = (if a = 0 then NaN else if 0 < a then PInf else NInf)"
| "fmul (Num a) NInf = (if a = 0 then NaN else if 0 < a then NInf else PInf)"
| "fmul PInf (Num b) = (if b = 0 then NaN else if 0 < b then PInf else NInf)"
| "fmul NInf (Num b) = (if b = 0 then NaN else if 0 < b then NInf else PInf)"
| "fmul PInf PInf = PInf"
| "fmul NInf NInf = PInf"
| "fmul PInf NInf = NInf"
| "fmul NInf PInf = NInf"
| "fmul _ _ = NaN"

declare fmul.simps [simp del]

fun fsub :: "jsnum \<Rightarrow> jsnum \<Rightarrow> jsnum" where
  "fsub (Num a) (Num b) = Num (fl (a - b))"
| "fsub (Num a) PInf = NInf"
| "fsub (Num a) NInf = PInf"
| "fsub PInf (Num b) = PInf"
| "fsub NInf (Num b) = NInf"
| "fsub PInf NInf = PInf"
| "fsub NInf PInf = NInf"
| "fsub _ _ = NaN"

declare fsub.simps [simp del]

text \<open>
  \<^verbatim>\<open>Math.round\<close> is \<open>floor (x + 0.5)\<close>, a tie goes towards \<open>+\<infinity>\<close>;
  \<^verbatim>\<open>Math.floor\<close> and \<^verbatim>\<open>Math.abs\<close> as usual.
\<close>

fun mathRound :: "jsnum \<Rightarrow> jsnum" where
  "mathRound (Num x) = Num (of_int \<lfloor>x + 1/2\<rfloor>)"
| "mathRound v = v"

declare mathRound.simps [simp del]

fun mathFloor :: "jsnum \<Rightarrow> jsnum" where
  "mathFloor (Num x) = Num (of_int \<lfloor>x\<rfloor>)"
| "mathFloor v = v"

declare mathFloor.simps [simp del]

fun mathAbs :: "jsnum \<Rightarrow> jsnum" where
  "mathAbs (Num x) = Num \<bar>x\<bar>"
| "mathAbs NInf = PInf"
| "mathAbs v = v"

declare mathAbs.simps [simp del]

text \<open>
  \<^verbatim>\<open>Math.pow(k, i)\<close> for a positive base and an exponent that \<^verbatim>\<open>Math.floor\<close>
  returned: an integer, \<open>NaN\<close> or an infinity. The program has no other call.
\<close>

fun mathPow :: "rat \<Rightarrow> jsnum \<Rightarrow> jsnum" where
  "mathPow k (Num i) = Num (fl (k powi \<lfloor>i\<rfloor>))"
| "mathPow k PInf = (if 1 < k then PInf else if k = 1 then NaN else Num 0)"
| "mathPow k NInf = (if 1 < k then Num 0 else if k = 1 then NaN else PInf)"
| "mathPow k NaN = NaN"

declare mathPow.simps [simp del]

text \<open>ToBoolean of a number (the left operand of \<^verbatim>\<open>||\<close>) and \<^verbatim>\<open>x >= 0\<close>.\<close>

fun truthy :: "jsnum \<Rightarrow> bool" where
  "truthy (Num x) = (x \<noteq> 0)"
| "truthy NaN = False"
| "truthy _ = True"

definition orElse :: "jsnum \<Rightarrow> jsnum \<Rightarrow> jsnum" where
  "orElse a b = (if truthy a then a else b)"

fun geZero :: "jsnum \<Rightarrow> bool" where
  "geZero (Num x) = (0 \<le> x)"
| "geZero PInf = True"
| "geZero _ = False"

section \<open>Numbers and strings\<close>

text \<open>Characters by their code, as integers.\<close>

definition isDigit :: "char \<Rightarrow> bool" where
  "isDigit c = (48 \<le> (of_char c :: int) \<and> (of_char c :: int) \<le> 57)"

definition digitVal :: "char \<Rightarrow> int" where
  "digitVal c = of_char c - 48"

definition digitChar :: "int \<Rightarrow> char" where
  "digitChar d = char_of (d + 48)"

text \<open>The value of a hexadecimal digit: \<^verbatim>\<open>0-9\<close>, \<^verbatim>\<open>a-f\<close>, \<^verbatim>\<open>A-F\<close>.\<close>

definition isHexDigit :: "char \<Rightarrow> bool" where
  "isHexDigit c =
     (let n = (of_char c :: int)
      in 48 \<le> n \<and> n \<le> 57 \<or> 97 \<le> n \<and> n \<le> 102 \<or> 65 \<le> n \<and> n \<le> 70)"

definition hexVal :: "char \<Rightarrow> int" where
  "hexVal c =
     (let n = (of_char c :: int)
      in if n \<le> 57 then n - 48 else if 97 \<le> n then n - 87 else n - 55)"

text \<open>The white space and line terminators of the ASCII range.\<close>

definition isSpace :: "char \<Rightarrow> bool" where
  "isSpace c = ((of_char c :: int) \<in> {9, 10, 11, 12, 13, 32})"

definition fromDigits :: "int \<Rightarrow> int list \<Rightarrow> int" where
  "fromDigits r ds = foldl (\<lambda>acc d. acc * r + d) 0 ds"

text \<open>The decimal digits of an integer that is not negative.\<close>

function showInt :: "int \<Rightarrow> string" where
  "showInt n = (if n < 10 then [digitChar n]
                else showInt (n div 10) @ [digitChar (n mod 10)])"
  by pat_completeness auto
termination
  by (relation "measure nat") (auto intro: int_div_less_self)

declare showInt.simps [simp del]


subsection \<open>parseInt\<close>

text \<open>
  \<^verbatim>\<open>parseInt(string)\<close> with no radix: leading white space is dropped, then a sign, then
  a \<^verbatim>\<open>0x\<close> prefix selects radix 16; the longest prefix of digits is the value, and no
  digit at all is \<open>NaN\<close>.
\<close>

definition parseInt :: "string \<Rightarrow> jsnum" where
  "parseInt str =
     (let s = dropWhile isSpace str;
          neg = (take 1 s = ''-'');
          s1 = (if take 1 s = ''-'' \<or> take 1 s = ''+'' then drop 1 s else s);
          hex = (take 2 s1 = ''0x'' \<or> take 2 s1 = ''0X'');
          z = (if hex then takeWhile isHexDigit (drop 2 s1) else takeWhile isDigit s1);
          m = (if hex then fromDigits 16 (map hexVal z) else fromDigits 10 (map digitVal z))
      in if z = [] then NaN
         else Num (fl (if neg then - of_int m else of_int m)))"

subsection \<open>Number to string\<close>

text \<open>
  \<open>digitsOf x k\<close>: the decimal \<open>s * 10 ^ (n - k)\<close> with \<open>k\<close> digits that reads back as
  the double \<open>x\<close> (for \<open>0 < x\<close>), as its digit string and the exponent \<open>n\<close>; of two such
  decimals the one nearer to \<open>x\<close>, and the even one on a tie.
\<close>

definition digitsOf :: "rat \<Rightarrow> nat \<Rightarrow> (string \<times> int) option" where
  "digitsOf x k =
     (let n = ilog 10 x + 1;
          sc = 10 powi (n - int k);
          lo = \<lfloor>x / sc\<rfloor>;
          hi = lo + 1;
          okLo = (fl (of_int lo * sc) = x);
          okHi = (fl (of_int hi * sc) = x);
          dLo = x - of_int lo * sc;
          dHi = of_int hi * sc - x;
          useLo = (okLo \<and> (\<not> okHi \<or> dLo < dHi \<or> dLo = dHi \<and> even lo))
      in if useLo then Some (showInt lo, n)
         else if okHi then
           (if hi = 10 ^ k then Some (''1'', n + 1) else Some (showInt hi, n))
         else None)"

text \<open>The shortest such decimal; 17 digits identify every double.\<close>

fun shortest :: "rat \<Rightarrow> nat list \<Rightarrow> string \<times> int" where
  "shortest x [] = (showInt (rne (x / 10 powi (ilog 10 x - 16))), ilog 10 x + 1)"
| "shortest x (k # ks) = (case digitsOf x k of Some r \<Rightarrow> r | None \<Rightarrow> shortest x ks)"

definition render :: "string \<Rightarrow> int \<Rightarrow> string" where
  "render ds n =
     (let k = int (length ds)
      in if k \<le> n \<and> n \<le> 21 then ds @ replicate (nat (n - k)) CHR ''0''
         else if 0 < n \<and> n \<le> 21 then take (nat n) ds @ ''.'' @ drop (nat n) ds
         else if - 6 < n \<and> n \<le> 0 then ''0.'' @ replicate (nat (- n)) CHR ''0'' @ ds
         else let e = n - 1;
                  es = (if 0 \<le> e then ''+'' else ''-'') @ showInt \<bar>e\<bar>
              in if k = 1 then ds @ ''e'' @ es
                 else take 1 ds @ ''.'' @ drop 1 ds @ ''e'' @ es)"

definition posToString :: "rat \<Rightarrow> string" where
  "posToString x = (case shortest x [1 ..< 18] of (ds, n) \<Rightarrow> render ds n)"

text \<open>ToString of a number: string concatenation, template literals, \<^verbatim>\<open>input.value = n\<close>.\<close>

fun numToString :: "jsnum \<Rightarrow> string" where
  "numToString NaN = ''NaN''"
| "numToString PInf = ''Infinity''"
| "numToString NInf = ''-Infinity''"
| "numToString (Num x) =
     (if x = 0 then ''0'' else if x < 0 then ''-'' @ posToString (- x) else posToString x)"

declare numToString.simps [simp del]

subsection \<open>toFixed(2) and parseFloat\<close>

text \<open>
  \<^verbatim>\<open>x.toFixed(2)\<close>: the integer \<open>n\<close> with \<open>n / 100\<close> nearest to \<open>\<bar>x\<bar>\<close> (the larger on a
  tie), written with two fraction digits.
\<close>

fun toFixed2 :: "jsnum \<Rightarrow> string" where
  "toFixed2 (Num x) =
     (let a = \<bar>x\<bar>;
          s = (if x < 0 then ''-'' else [])
      in if 10 ^ 21 \<le> a then s @ numToString (Num a)
         else let m = showInt \<lfloor>a * 100 + 1/2\<rfloor>;
                  m' = replicate (3 - length m) CHR ''0'' @ m
              in s @ take (length m' - 2) m' @ ''.'' @ drop (length m' - 2) m')"
| "toFixed2 v = numToString v"

declare toFixed2.simps [simp del]

text \<open>
  \<^verbatim>\<open>parseFloat(string)\<close>: the longest prefix that is a decimal literal (sign, digits,
  fraction, exponent) or \<^verbatim>\<open>Infinity\<close>; none is \<open>NaN\<close>.
\<close>

definition parseFloat :: "string \<Rightarrow> jsnum" where
  "parseFloat str =
     (let s = dropWhile isSpace str;
          neg = (take 1 s = ''-'');
          s1 = (if take 1 s = ''-'' \<or> take 1 s = ''+'' then drop 1 s else s);
          ip = takeWhile isDigit s1;
          r1 = dropWhile isDigit s1;
          dot = (take 1 r1 = ''.'');
          fp = (if dot then takeWhile isDigit (drop 1 r1) else []);
          r2 = (if dot then dropWhile isDigit (drop 1 r1) else r1);
          r3 = drop 1 r2;
          eneg = (take 1 r3 = ''-'');
          r4 = (if take 1 r3 = ''-'' \<or> take 1 r3 = ''+'' then drop 1 r3 else r3);
          ed = takeWhile isDigit r4;
          ex = (if (take 1 r2 = ''e'' \<or> take 1 r2 = ''E'') \<and> ed \<noteq> []
                then (if eneg then - fromDigits 10 (map digitVal ed)
                      else fromDigits 10 (map digitVal ed))
                else 0);
          v = of_int (fromDigits 10 (map digitVal (ip @ fp))) * 10 powi (ex - int (length fp))
      in if take 8 s1 = ''Infinity'' then (if neg then NInf else PInf)
         else if ip = [] \<and> fp = [] then NaN
         else Num (fl (if neg then - v else v)))"


section \<open>Session state, page elements and the platform\<close>

text \<open>
  A \<^verbatim>\<open>File\<close> with the properties the program reads; \<open>file_data\<close> stands for its bytes.
  An \<^verbatim>\<open>Image\<close> that has loaded, with the file whose data URL is its \<^verbatim>\<open>src\<close>. A
  \<^verbatim>\<open>Blob\<close> that \<^verbatim>\<open>canvas.toBlob\<close> delivered. Widths and heights are
  \<^verbatim>\<open>unsigned long\<close>, sizes are integers below \<open>2 ^ 53\<close>, so each is a double as it is.
\<close>

record jsfile =
  file_name :: string
  file_type :: string
  file_size :: nat
  file_data :: nat

record image =
  img_width :: nat
  img_height :: nat
  img_src :: jsfile

record blob =
  blob_size :: nat
  blob_data :: nat

datatype url = DataURL jsfile | ObjectURL blob

text \<open>The object \<^verbatim>\<open>state\<close> (lines 7-15); \<open>None\<close> is \<^verbatim>\<open>null\<close>.\<close>

record state =
  originalFile :: "jsfile option"
  originalImage :: "image option"
  compressedBlob :: "blob option"
  quality :: jsnum
  outputFormat :: string
  aspectRatio :: jsnum
  lockAspectRatio :: bool

definition initialState :: state where
  "initialState =
     \<lparr>originalFile = None, originalImage = None, compressedBlob = None, quality = Num 80,
      outputFormat = ''image/jpeg'', aspectRatio = Num 1, lockAspectRatio = True\<rparr>"

text \<open>
  The properties of the page elements (lines 18-37) that the program writes or reads. A
  format button is its \<^verbatim>\<open>data-format\<close> and whether it carries the class
  \<^verbatim>\<open>active\<close>. The page itself is not part of \<^verbatim>\<open>script.js\<close>, so the elements at start
  are a parameter.
\<close>

record elements =
  uploadZone_display :: string
  fileInput_value :: string
  compressionPanel_active :: bool
  originalPreview_src :: "url option"
  compressedPreview_src :: "url option"
  originalInfo_fileSize :: string
  compressedInfo_fileSize :: string
  savings_text :: string
  savings_background :: string
  qualitySlider_value :: string
  qualityValue_text :: string
  widthInput_value :: string
  heightInput_value :: string
  widthInput_placeholder :: string
  heightInput_placeholder :: string
  formatButtons :: "(string \<times> bool) list"

text \<open>
  One call of \<^verbatim>\<open>canvas.toBlob\<close> (line 155): the image drawn, the \<^verbatim>\<open>width\<close> and
  \<^verbatim>\<open>height\<close> given to the canvas and to \<^verbatim>\<open>drawImage\<close>, the format and the quality
  argument (\<open>None\<close> is \<^verbatim>\<open>undefined\<close>).
\<close>

record encodeCall =
  enc_image :: image
  enc_width :: jsnum
  enc_height :: jsnum
  enc_format :: string
  enc_quality :: "jsnum option"

text \<open>
  What the browser computes: \<^verbatim>\<open>Math.log\<close>, whose accuracy the language leaves to the
  implementation, and the canvas encoder, which hands \<^verbatim>\<open>toBlob\<close>'s callback a blob or
  \<^verbatim>\<open>null\<close>.
\<close>

record platform =
  mathLog :: "rat \<Rightarrow> jsnum"
  toBlob :: "encodeCall \<Rightarrow> blob option"

text \<open>
  A pending \<^verbatim>\<open>setTimeout\<close>: its id, the time it is due, and the closure \<^verbatim>\<open>later\<close>
  (line 316) it runs, that is the cell of the variable \<^verbatim>\<open>timeout\<close> it closes over and
  the debounced function.
\<close>

datatype func = CompressImage

record timer =
  timer_id :: nat
  timer_due :: nat
  timer_cell :: nat
  timer_func :: func

text \<open>The function \<^verbatim>\<open>executedFunction\<close> that one call of \<^verbatim>\<open>debounce\<close> returns.\<close>

record closure =
  cl_cell :: nat
  cl_func :: func
  cl_wait :: nat

text \<open>
  The whole page: \<^verbatim>\<open>state\<close>, the elements, and what the program did to the outside
  (alerts shown, uncaught exceptions, file reads started, encoder calls, downloads offered),
  the clock in milliseconds, the pending timers and the \<^verbatim>\<open>timeout\<close> variables of the
  closures made by \<^verbatim>\<open>debounce\<close>.
\<close>

record world =
  st :: state
  els :: elements
  alerts :: "string list"
  uncaught :: "string list"
  reads :: "jsfile list"
  encodeCalls :: "encodeCall list"
  downloads :: "(string \<times> blob) list"
  clock :: nat
  timers :: "timer list"
  nextTimer :: nat
  cells :: "nat \<Rightarrow> nat option"
  nextCell :: nat

definition initialWorld :: "elements \<Rightarrow> world" where
  "initialWorld e =
     \<lparr>st = initialState, els = e, alerts = [], uncaught = [], reads = [], encodeCalls = [],
      downloads = [], clock = 0, timers = [], nextTimer = 0, cells = (\<lambda>_. None),
      nextCell = 0\<rparr>"

section \<open>Info updates (lines 170-190)\<close>

definition sizes :: "string list" where
  "sizes = [''Bytes'', ''KB'', ''MB'', ''GB'']"

text \<open>\<^verbatim>\<open>sizes[i]\<close> in a string concatenation: a missing property reads \<^verbatim>\<open>undefined\<close>.\<close>

fun sizesAt :: "jsnum \<Rightarrow> string" where
  "sizesAt (Num i) =
     (if i = of_int \<lfloor>i\<rfloor> \<and> 0 \<le> i \<and> i < 4 then sizes ! nat \<lfloor>i\<rfloor> else ''undefined'')"
| "sizesAt _ = ''undefined''"

declare sizesAt.simps [simp del]

definition formatFileSize :: "platform \<Rightarrow> nat \<Rightarrow> string" where
  "formatFileSize pf bytes =
     (if bytes = 0 then ''0 Bytes''
      else let k = 1024;
               i = mathFloor (fdiv (mathLog pf (of_nat bytes)) (mathLog pf k))
           in numToString (parseFloat (toFixed2 (fdiv (Num (of_nat bytes)) (mathPow k i))))
              @ '' '' @ sizesAt i)"

text \<open>
  \<^verbatim>\<open>state.originalFile.size\<close> throws a TypeError when \<^verbatim>\<open>originalFile\<close> is
  \<^verbatim>\<open>null\<close>; both functions read it first, so \<open>None\<close> is the exception, thrown before
  any write.
\<close>

definition updateOriginalInfo :: "platform \<Rightarrow> world \<Rightarrow> world option" where
  "updateOriginalInfo pf w =
     (case originalFile (st w) of
        None \<Rightarrow> None
      | Some f \<Rightarrow>
          Some (w\<lparr>els := (els w)\<lparr>originalInfo_fileSize := formatFileSize pf (file_size f)\<rparr>\<rparr>))"

definition savedPercent :: "nat \<Rightarrow> nat \<Rightarrow> jsnum" where
  "savedPercent compressedSize originalSize =
     mathRound (fmul (fsub (Num 1) (fdiv (Num (of_nat compressedSize)) (Num (of_nat originalSize))))
                     (Num 100))"

definition savingsText :: "jsnum \<Rightarrow> string" where
  "savingsText p =
     (if geZero p then ''-'' @ numToString p @ ''%''
      else ''+'' @ numToString (mathAbs p) @ ''%'')"

definition updateCompressedInfo :: "platform \<Rightarrow> nat \<Rightarrow> world \<Rightarrow> world option" where
  "updateCompressedInfo pf compressedSize w =
     (case originalFile (st w) of
        None \<Rightarrow> None
      | Some f \<Rightarrow>
          (let p = savedPercent compressedSize (file_size f)
           in Some (w\<lparr>els := (els w)
                \<lparr>compressedInfo_fileSize := formatFileSize pf compressedSize,
                 savings_text := savingsText p,
                 savings_background := (if geZero p then ''var(--success)'' else ''#ef4444'')\<rparr>\<rparr>)))"

section \<open>Image compression (lines 123-167)\<close>

text \<open>
  The callback of \<^verbatim>\<open>canvas.toBlob\<close> (lines 155-166), given what the encoder delivered.
  An exception in \<^verbatim>\<open>updateCompressedInfo\<close> ends the callback after the writes before it.
\<close>

definition toBlobCallback :: "platform \<Rightarrow> blob option \<Rightarrow> world \<Rightarrow> world" where
  "toBlobCallback pf result w =
     (case result of
        None \<Rightarrow> w
      | Some b \<Rightarrow>
          (let w1 = w\<lparr>st := (st w)\<lparr>compressedBlob := Some b\<rparr>\<rparr>;
               w2 = w1\<lparr>els := (els w1)\<lparr>compressedPreview_src := Some (ObjectURL b)\<rparr>\<rparr>
           in case updateCompressedInfo pf (blob_size b) w2 of
                None \<Rightarrow> w2\<lparr>uncaught := uncaught w2 @ [''TypeError'']\<rparr>
              | Some w3 \<Rightarrow> w3))"

text \<open>
  \<^verbatim>\<open>compressImage\<close>. The encoder is asked once and its callback runs with the answer;
  no other handler runs in between.
\<close>

definition compressImage :: "platform \<Rightarrow> world \<Rightarrow> world" where
  "compressImage pf w =
     (case originalImage (st w) of
        None \<Rightarrow> w
      | Some img \<Rightarrow>
          (let width = orElse (parseInt (widthInput_value (els w))) (Num (of_nat (img_width img)));
               height = orElse (parseInt (heightInput_value (els w))) (Num (of_nat (img_height img)));
               q = fdiv (quality (st w)) (Num 100);
               actualFormat = outputFormat (st w);
               actualQuality = (if outputFormat (st w) = ''image/png'' then None else Some q);
               call = \<lparr>enc_image = img, enc_width = width, enc_height = height,
                       enc_format = actualFormat, enc_quality = actualQuality\<rparr>
           in toBlobCallback pf (toBlob pf call) (w\<lparr>encodeCalls := encodeCalls w @ [call]\<rparr>)))"

text \<open>The one call of the encoder that \<^verbatim>\<open>compressImage\<close> makes for a loaded image.\<close>

definition encodeRequest :: "image \<Rightarrow> world \<Rightarrow> encodeCall" where
  "encodeRequest img w =
     \<lparr>enc_image = img,
      enc_width = orElse (parseInt (widthInput_value (els w))) (Num (of_nat (img_width img))),
      enc_height = orElse (parseInt (heightInput_value (els w))) (Num (of_nat (img_height img))),
      enc_format = outputFormat (st w),
      enc_quality = (if outputFormat (st w) = ''image/png'' then None
                     else Some (fdiv (quality (st w)) (Num 100)))\<rparr>"

section \<open>File handling (lines 85-120)\<close>

definition startsWith :: "string \<Rightarrow> string \<Rightarrow> bool" where
  "startsWith s p = (take (length p) s = p)"

text \<open>
  \<^verbatim>\<open>handleFile\<close> up to \<^verbatim>\<open>reader.readAsDataURL(file)\<close>: the alert and the return, or
  the file stored and the read started.
\<close>

definition handleFile :: "jsfile \<Rightarrow> world \<Rightarrow> world" where
  "handleFile f w =
     (if \<not> startsWith (file_type f) ''image/''
      then w\<lparr>alerts := alerts w @ [''Please upload an image file'']\<rparr>
      else w\<lparr>st := (st w)\<lparr>originalFile := Some f\<rparr>, reads := reads w @ [f]\<rparr>)"

text \<open>
  \<^verbatim>\<open>img.onload\<close> (lines 96-116), for the image decoded from the data URL that the
  reader delivered. An exception in \<^verbatim>\<open>updateOriginalInfo\<close> ends the handler there.
\<close>

definition imgOnload :: "platform \<Rightarrow> image \<Rightarrow> world \<Rightarrow> world" where
  "imgOnload pf img w =
     (let w1 = w\<lparr>st := (st w)
                 \<lparr>originalImage := Some img,
                  aspectRatio := fdiv (Num (of_nat (img_width img))) (Num (of_nat (img_height img)))\<rparr>\<rparr>;
          w2 = w1\<lparr>els := (els w1)
                 \<lparr>widthInput_value := numToString (Num (of_nat (img_width img))),
                  heightInput_value := numToString (Num (of_nat (img_height img))),
                  widthInput_placeholder := numToString (Num (of_nat (img_width img))),
                  heightInput_placeholder := numToString (Num (of_nat (img_height img))),
                  originalPreview_src := Some (DataURL (img_src img))\<rparr>\<rparr>
      in case updateOriginalInfo pf w2 of
           None \<Rightarrow> w2\<lparr>uncaught := uncaught w2 @ [''TypeError'']\<rparr>
         | Some w3 \<Rightarrow>
             compressImage pf
               (w3\<lparr>els := (els w3)\<lparr>uploadZone_display := ''none'',
                                     compressionPanel_active := True\<rparr>\<rparr>))"

text \<open>
  Loading a file to the end: \<^verbatim>\<open>handleFile\<close>, and for an accepted file the image that
  decodes from it arriving in \<^verbatim>\<open>img.onload\<close>, with width \<open>iw\<close> and height \<open>ih\<close>.
\<close>

definition loadSource :: "platform \<Rightarrow> jsfile \<Rightarrow> nat \<Rightarrow> nat \<Rightarrow> world \<Rightarrow> world" where
  "loadSource pf f iw ih w =
     (if \<not> startsWith (file_type f) ''image/'' then handleFile f w
      else imgOnload pf \<lparr>img_width = iw, img_height = ih, img_src = f\<rparr> (handleFile f w))"


section \<open>Utilities: debounce (lines 313-323) and the timers\<close>

definition clearTimeout :: "nat option \<Rightarrow> world \<Rightarrow> world" where
  "clearTimeout i w =
     (case i of
        None \<Rightarrow> w
      | Some n \<Rightarrow> w\<lparr>timers := filter (\<lambda>x. timer_id x \<noteq> n) (timers w)\<rparr>)"

text \<open>\<^verbatim>\<open>setTimeout(later, wait)\<close> for the closure \<^verbatim>\<open>later\<close> over cell \<open>c\<close>.\<close>

definition setTimeout :: "nat \<Rightarrow> func \<Rightarrow> nat \<Rightarrow> world \<Rightarrow> nat \<times> world" where
  "setTimeout c func wait w =
     (nextTimer w,
      w\<lparr>timers := timers w @ [\<lparr>timer_id = nextTimer w, timer_due = clock w + wait,
                                 timer_cell = c, timer_func = func\<rparr>],
        nextTimer := Suc (nextTimer w)\<rparr>)"

text \<open>
  \<^verbatim>\<open>debounce(func, wait)\<close>: a new variable \<^verbatim>\<open>timeout\<close>, not yet assigned, and the
  function that closes over it.
\<close>

definition debounce :: "func \<Rightarrow> nat \<Rightarrow> world \<Rightarrow> closure \<times> world" where
  "debounce func wait w =
     (\<lparr>cl_cell = nextCell w, cl_func = func, cl_wait = wait\<rparr>,
      w\<lparr>cells := (cells w)(nextCell w := None), nextCell := Suc (nextCell w)\<rparr>)"

definition executedFunction :: "closure \<Rightarrow> world \<Rightarrow> world" where
  "executedFunction cl w =
     (let w1 = clearTimeout (cells w (cl_cell cl)) w;
          (i, w2) = setTimeout (cl_cell cl) (cl_func cl) (cl_wait cl) w1
      in w2\<lparr>cells := (cells w2)(cl_cell cl := Some i)\<rparr>)"

fun callFunc :: "func \<Rightarrow> platform \<Rightarrow> world \<Rightarrow> world" where
  "callFunc CompressImage pf w = compressImage pf w"

definition later :: "platform \<Rightarrow> timer \<Rightarrow> world \<Rightarrow> world" where
  "later pf tm w = callFunc (timer_func tm) pf (clearTimeout (cells w (timer_cell tm)) w)"

text \<open>
  The event loop between two user events: the pending timer that is due first, the older
  one of two due together, leaves the list and runs; so on until none is due by \<open>t\<close>.
\<close>

definition nextDue :: "nat \<Rightarrow> timer list \<Rightarrow> timer option" where
  "nextDue t ts =
     (case filter (\<lambda>x. timer_due x \<le> t) ts of
        [] \<Rightarrow> None
      | x # xs \<Rightarrow> Some (foldl (\<lambda>a b. if timer_due b < timer_due a then b else a) x xs))"

definition fire :: "platform \<Rightarrow> timer \<Rightarrow> world \<Rightarrow> world" where
  "fire pf tm w =
     later pf tm (w\<lparr>timers := filter (\<lambda>x. timer_id x \<noteq> timer_id tm) (timers w),
                    clock := max (clock w) (timer_due tm)\<rparr>)"

function advance :: "platform \<Rightarrow> nat \<Rightarrow> world \<Rightarrow> world" where
  "advance pf t w =
     (case nextDue t (timers w) of
        None \<Rightarrow> w\<lparr>clock := max (clock w) t\<rparr>
      | Some tm \<Rightarrow> advance pf t (fire pf tm w))"
  by pat_completeness auto
termination
proof (relation "measure (\<lambda>(pf, t, w). length (timers w))")
  show "wf (measure (\<lambda>(pf, t, w). length (timers w)))" by simp
next
  fix pf :: platform and t :: nat and w :: world and tm :: timer
  assume due: "nextDue t (timers w) = Some tm"
  have pick: "foldl (\<lambda>a b. if timer_due b < timer_due a then b else a) x xs \<in> set (x # xs)"
    for x :: timer and xs
    by (induction xs arbitrary: x) auto
  have "tm \<in> set (filter (\<lambda>x. timer_due x \<le> t) (timers w))"
  proof (cases "filter (\<lambda>x. timer_due x \<le> t) (timers w)")
    case Nil
    with due show ?thesis by (simp add: nextDue_def)
  next
    case (Cons x xs)
    with due have "tm = foldl (\<lambda>a b. if timer_due b < timer_due a then b else a) x xs"
      by (simp add: nextDue_def)
    with pick [of x xs] Cons show ?thesis by simp
  qed
  then have mem: "tm \<in> set (timers w)" by simp
  have less: "length (filter (\<lambda>x. timer_id x \<noteq> timer_id tm) (timers w)) < length (timers w)"
    using mem by (intro length_filter_less [of tm]) simp_all
  have keep: "timers (compressImage pf v) = timers v" for v
    by (simp add: compressImage_def toBlobCallback_def updateCompressedInfo_def Let_def
        split: option.splits)
  have clear: "length (timers (clearTimeout i v)) \<le> length (timers v)" for i v
    by (simp add: clearTimeout_def split: option.splits)
  have "length (timers (fire pf tm w))
      \<le> length (filter (\<lambda>x. timer_id x \<noteq> timer_id tm) (timers w))"
    using clear [of "cells w (timer_cell tm)"
        "w\<lparr>timers := filter (\<lambda>x. timer_id x \<noteq> timer_id tm) (timers w),
           clock := max (clock w) (timer_due tm)\<rparr>"]
    by (cases "timer_func tm") (simp add: fire_def later_def keep)
  with less show "((pf, t, fire pf tm w), (pf, t, w)) \<in> measure (\<lambda>(pf, t, w). length (timers w))"
    by simp
qed

declare advance.simps [simp del]

section \<open>Controls (lines 193-239)\<close>

text \<open>
  Each handler takes what the user entered: the browser has put it into the element's
  \<^verbatim>\<open>value\<close> (or \<^verbatim>\<open>checked\<close>) before the listener runs.
\<close>

definition qualitySlider_input :: "string \<Rightarrow> world \<Rightarrow> world" where
  "qualitySlider_input v w =
     (let w0 = w\<lparr>els := (els w)\<lparr>qualitySlider_value := v\<rparr>\<rparr>;
          w1 = w0\<lparr>st := (st w0)\<lparr>quality := parseInt (qualitySlider_value (els w0))\<rparr>\<rparr>;
          w2 = w1\<lparr>els := (els w1)\<lparr>qualityValue_text := numToString (quality (st w1)) @ ''%''\<rparr>\<rparr>;
          (cl, w3) = debounce CompressImage 100 w2
      in executedFunction cl w3)"

definition widthInput_input :: "string \<Rightarrow> world \<Rightarrow> world" where
  "widthInput_input v w =
     (let w0 = w\<lparr>els := (els w)\<lparr>widthInput_value := v\<rparr>\<rparr>;
          w1 = (case originalImage (st w0) of
                  None \<Rightarrow> w0
                | Some img \<Rightarrow>
                    if lockAspectRatio (st w0) then
                      (let width = orElse (parseInt (widthInput_value (els w0)))
                                          (Num (of_nat (img_width img)))
                       in w0\<lparr>els := (els w0)\<lparr>heightInput_value :=
                               numToString (mathRound (fdiv width (aspectRatio (st w0))))\<rparr>\<rparr>)
                    else w0);
          (cl, w2) = debounce CompressImage 300 w1
      in executedFunction cl w2)"

definition heightInput_input :: "string \<Rightarrow> world \<Rightarrow> world" where
  "heightInput_input v w =
     (let w0 = w\<lparr>els := (els w)\<lparr>heightInput_value := v\<rparr>\<rparr>;
          w1 = (case originalImage (st w0) of
                  None \<Rightarrow> w0
                | Some img \<Rightarrow>
                    if lockAspectRatio (st w0) then
                      (let height = orElse (parseInt (heightInput_value (els w0)))
                                           (Num (of_nat (img_height img)))
                       in w0\<lparr>els := (els w0)\<lparr>widthInput_value :=
                               numToString (mathRound (fmul height (aspectRatio (st w0))))\<rparr>\<rparr>)
                    else w0);
          (cl, w2) = debounce CompressImage 300 w1
      in executedFunction cl w2)"

definition aspectRatio_change :: "bool \<Rightarrow> world \<Rightarrow> world" where
  "aspectRatio_change checked w = w\<lparr>st := (st w)\<lparr>lockAspectRatio := checked\<rparr>\<rparr>"

text \<open>A click on the format button number \<open>i\<close> of the page.\<close>

definition formatButton_click :: "platform \<Rightarrow> nat \<Rightarrow> world \<Rightarrow> world" where
  "formatButton_click pf i w =
     (if length (formatButtons (els w)) \<le> i then w
      else let off = map (\<lambda>(f, a). (f, False)) (formatButtons (els w));
               w1 = w\<lparr>els := (els w)\<lparr>formatButtons := off[i := (fst (off ! i), True)]\<rparr>\<rparr>;
               w2 = w1\<lparr>st := (st w1)\<lparr>outputFormat := fst (off ! i)\<rparr>\<rparr>
           in compressImage pf w2)"

section \<open>Download (lines 242-255)\<close>

fun splitOn :: "char \<Rightarrow> string \<Rightarrow> string list" where
  "splitOn c [] = [] # []"
| "splitOn c (x # xs) =
     (if x = c then [] # splitOn c xs
      else case splitOn c xs of
             [] \<Rightarrow> [x] # []
           | p # ps \<Rightarrow> (x # p) # ps)"

text \<open>\<^verbatim>\<open>name.replace(/\.[^/.]+$/, '')\<close>: a last extension, if there is one, is cut off.\<close>

definition stripExtension :: "string \<Rightarrow> string" where
  "stripExtension name =
     (let ext = takeWhile (\<lambda>c. c \<noteq> CHR ''.'' \<and> c \<noteq> CHR ''/'') (rev name);
          rest = drop (length ext) (rev name)
      in if ext \<noteq> [] \<and> take 1 rest = ''.'' then rev (drop 1 rest) else name)"

definition downloadCompressedImage :: "world \<Rightarrow> world" where
  "downloadCompressedImage w =
     (case compressedBlob (st w) of
        None \<Rightarrow> w
      | Some b \<Rightarrow>
          (case originalFile (st w) of
             None \<Rightarrow> w\<lparr>uncaught := uncaught w @ [''TypeError'']\<rparr>
           | Some f \<Rightarrow>
               (let parts = splitOn CHR ''/'' (outputFormat (st w));
                    extension = (if 1 < length parts then parts ! 1 else ''undefined'');
                    originalName = stripExtension (file_name f);
                    filename = originalName @ ''_compressed.'' @ extension
                in w\<lparr>downloads := downloads w @ [(filename, b)]\<rparr>)))"

section \<open>Reset (lines 258-284)\<close>

definition resetCompressor :: "world \<Rightarrow> world" where
  "resetCompressor w =
     (let w1 = w\<lparr>st := (st w)\<lparr>originalFile := None, originalImage := None,
                             compressedBlob := None, quality := Num 80,
                             outputFormat := ''image/jpeg''\<rparr>\<rparr>
      in w1\<lparr>els := (els w1)
            \<lparr>qualitySlider_value := numToString (Num 80),
             qualityValue_text := ''80%'',
             widthInput_value := [],
             heightInput_value := [],
             fileInput_value := [],
             formatButtons := map (\<lambda>(i, (f, a)). (f, i = 0)) (enumerate 0 (formatButtons (els w1))),
             uploadZone_display := ''block'',
             compressionPanel_active := False\<rparr>\<rparr>)"


section \<open>A sample page, platform and file\<close>

text \<open>
  Concrete data to run the program on: a page with three format buttons, a logarithm table
  for the sizes that occur, an encoder that always delivers 1536 bytes and one that always
  fails, and a PNG file of one mebibyte that decodes to 800 by 600 pixels.
\<close>

definition samplePage :: elements where
  "samplePage =
     \<lparr>uploadZone_display = [], fileInput_value = [], compressionPanel_active = False,
      originalPreview_src = None, compressedPreview_src = None,
      originalInfo_fileSize = [], compressedInfo_fileSize = [],
      savings_text = [], savings_background = [],
      qualitySlider_value = ''80'', qualityValue_text = ''80%'',
      widthInput_value = [], heightInput_value = [],
      widthInput_placeholder = [], heightInput_placeholder = [],
      formatButtons = [(''image/jpeg'', True), (''image/png'', False), (''image/webp'', False)]\<rparr>"

definition sampleLog :: "rat \<Rightarrow> jsnum" where
  "sampleLog x =
     (if x = 1024 then Num (fl (6931471805599453 / 10 ^ 15))
      else if x = 1536 then Num (fl (7336936913707618 / 10 ^ 15))
      else if x = 1048576 then Num (2 * fl (6931471805599453 / 10 ^ 15))
      else NaN)"

definition samplePlatform :: platform where
  "samplePlatform =
     \<lparr>mathLog = sampleLog, toBlob = (\<lambda>c. Some \<lparr>blob_size = 1536, blob_data = 0\<rparr>)\<rparr>"

definition failingPlatform :: platform where
  "failingPlatform = \<lparr>mathLog = sampleLog, toBlob = (\<lambda>c. None)\<rparr>"

definition sampleFile :: jsfile where
  "sampleFile =
     \<lparr>file_name = ''photo.png'', file_type = ''image/png'', file_size = 1048576, file_data = 0\<rparr>"

definition loaded :: world where
  "loaded = loadSource samplePlatform sampleFile 800 600 (initialWorld samplePage)"


text \<open>The slider moved to 90, 85 and 80 at 0, 10 and 20 ms after the load.\<close>

definition threeQualityChanges :: world where
  "threeQualityChanges =
     qualitySlider_input ''80'' (advance samplePlatform 20
       (qualitySlider_input ''85'' (advance samplePlatform 10
         (qualitySlider_input ''90'' loaded))))"

text \<open>After the load the slider goes to 50 and the PNG button is clicked.\<close>

definition adjusted :: world where
  "adjusted = formatButton_click samplePlatform 1 (qualitySlider_input ''50'' loaded)"

text \<open>A file of media type \<^verbatim>\<open>text/plain\<close>.\<close>

definition textFile :: jsfile where
  "textFile =
     \<lparr>file_name = ''notes.txt'', file_type = ''text/plain'', file_size = 12, file_data = 1\<rparr>"

section \<open>The rounding the specification names\<close>

text \<open>
  The specification's words for the savings: \<open>(1 - E / S) * 100\<close>, rounded half away
  from zero. This is the specification's formula on exact numbers, not the program's.
\<close>

definition roundHalfAway :: "rat \<Rightarrow> int" where
  "roundHalfAway x = (if 0 \<le> x then \<lfloor>x + 1/2\<rfloor> else \<lceil>x - 1/2\<rceil>)"

definition spec_savingsPercent :: "nat \<Rightarrow> nat \<Rightarrow> int" where
  "spec_savingsPercent e s = roundHalfAway ((1 - of_nat e / of_nat s) * 100)"

section \<open>Rounding to a double\<close>

lemma rne_of_int: "rne (of_int n) = n"
  by (simp add: rne_def)

lemma rne_bounds: "\<lfloor>x\<rfloor> \<le> rne x \<and> rne x \<le> \<lfloor>x\<rfloor> + 1"
  by (simp add: rne_def Let_def)

lemma rne_mono: "x \<le> y \<Longrightarrow> rne x \<le> rne y"
proof (cases "\<lfloor>x\<rfloor> = \<lfloor>y\<rfloor>")
  case True
  assume "x \<le> y"
  then show ?thesis using True by (simp add: rne_def Let_def)
next
  case False
  assume xy: "x \<le> y"
  then have "\<lfloor>x\<rfloor> \<le> \<lfloor>y\<rfloor>" by (rule floor_mono)
  with False have "\<lfloor>x\<rfloor> + 1 \<le> \<lfloor>y\<rfloor>" by simp
  then show ?thesis using rne_bounds [of x] rne_bounds [of y] by linarith
qed

lemma rne_minus: "rne (- x) = - rne x"
proof (cases "x = of_int \<lfloor>x\<rfloor>")
  case True
  define n where "n = \<lfloor>x\<rfloor>"
  have "x = of_int n" using True by (simp add: n_def)
  then have "rne x = n" "rne (- x) = - n"
    using rne_of_int [of n] rne_of_int [of "- n"] by simp_all
  then show ?thesis by simp
next
  case False
  have le: "of_int \<lfloor>x\<rfloor> \<le> x" by (rule of_int_floor_le)
  have ne: "of_int \<lfloor>x\<rfloor> \<noteq> x" using False by (rule not_sym)
  have lt: "of_int \<lfloor>x\<rfloor> < x" using le ne by (rule le_neq_trans)
  have up: "x < of_int \<lfloor>x\<rfloor> + 1" by linarith
  have fm: "\<lfloor>- x\<rfloor> = - \<lfloor>x\<rfloor> - 1"
  proof (rule floor_unique)
    show "of_int (- \<lfloor>x\<rfloor> - 1) \<le> - x" using up by simp
    show "- x < of_int (- \<lfloor>x\<rfloor> - 1) + 1" using lt by simp
  qed
  define f where "f = \<lfloor>x\<rfloor>"
  define d where "d = x - of_int f"
  have x: "x = of_int f + d" by (simp add: d_def)
  have r1: "rne x = (if d < 1/2 then f else if 1/2 < d then f + 1 else if even f then f else f + 1)"
    by (simp add: rne_def Let_def f_def d_def)
  have "- x - of_int (- f - 1) = 1 - d" by (simp add: x)
  then have r2: "rne (- x) = (if 1 - d < 1/2 then - f - 1 else if 1/2 < 1 - d then - f
       else if even (- f - 1) then - f - 1 else - f)"
    unfolding rne_def Let_def fm f_def [symmetric] by simp
  consider "d < 1/2" | "1/2 < d" | "d = 1/2" by linarith
  then show ?thesis
  proof cases
    case 1 then show ?thesis unfolding r1 r2 by simp
  next
    case 2 then show ?thesis unfolding r1 r2 by simp
  next
    case 3 then show ?thesis unfolding r1 r2 by simp
  qed
qed

text \<open>The integer logarithm brackets its argument.\<close>

lemma ndigits_bounds:
  "2 \<le> b \<Longrightarrow> 1 \<le> n \<Longrightarrow> b ^ ndigits b n \<le> n \<and> n < b ^ Suc (ndigits b n)"
proof (induction b n rule: ndigits.induct)
  case (1 b n)
  show ?case
  proof (cases "n < b")
    case True
    then show ?thesis using "1.prems" by (simp add: ndigits.simps [of b n])
  next
    case False
    define q where "q = n div b"
    define k where "k = ndigits b q"
    have b: "0 < b" using "1.prems" by simp
    have "0 < n div b" using False b by (simp add: pos_imp_zdiv_pos_iff)
    then have q1: "1 \<le> q" by (simp add: q_def)
    have nd: "ndigits b n = Suc k"
      using False "1.prems" by (simp add: ndigits.simps [of b n] k_def q_def)
    have ih: "b ^ k \<le> q \<and> q < b ^ Suc k"
      using "1.IH" False "1.prems" q1 by (simp add: k_def q_def)
    have eq: "n = b * q + n mod b" by (simp add: q_def)
    have r: "0 \<le> n mod b" "n mod b < b" using b by simp_all
    have lo: "b * q \<le> n" using eq r(1) by linarith
    have "b * (q + 1) = b * q + b" by (simp add: distrib_left)
    then have hi: "n < b * (q + 1)" using eq r(2) by linarith
    have "b * b ^ k \<le> b * q" using ih b by simp
    then have A: "b ^ Suc k \<le> n" using lo by simp
    have "q + 1 \<le> b ^ Suc k" using ih by simp
    then have "b * (q + 1) \<le> b * b ^ Suc k" using b by simp
    then have B: "n < b ^ Suc (Suc k)" using hi by simp
    show ?thesis unfolding nd using A B ..
  qed
qed

lemma pow2_le_of_int: "2 ^ j \<le> (n::int) \<Longrightarrow> (2::rat) ^ j \<le> rat_of_int n"
proof -
  assume "2 ^ j \<le> n"
  then have "rat_of_int (2 ^ j) \<le> rat_of_int n" by (simp only: of_int_le_iff)
  then show ?thesis by simp
qed

lemma of_int_less_pow2: "(n::int) < 2 ^ j \<Longrightarrow> rat_of_int n + 1 \<le> 2 ^ j"
proof -
  assume "n < 2 ^ j"
  then have "n + 1 \<le> 2 ^ j" by simp
  then have "rat_of_int (n + 1) \<le> rat_of_int (2 ^ j)" by (simp only: of_int_le_iff)
  then show ?thesis by simp
qed

text \<open>The binary exponent brackets its argument.\<close>

lemma ilog2_bounds:
  assumes "0 < x"
  shows "2 powi (ilog 2 x) \<le> x \<and> x < 2 powi (ilog 2 x + 1)"
proof (cases "1 \<le> x")
  case True
  define n where "n = \<lfloor>x\<rfloor>"
  define k where "k = ndigits 2 n"
  have n: "1 \<le> n" using True by (simp add: n_def)
  have b: "2 ^ k \<le> n" "n < 2 ^ Suc k"
    using ndigits_bounds [of 2 n] n by (simp_all add: k_def)
  have e: "ilog 2 x = int k" using True by (simp add: ilog_def k_def n_def)
  have nx: "rat_of_int n \<le> x" "x < rat_of_int n + 1"
    by (simp_all add: n_def) linarith
  have A: "(2::rat) ^ k \<le> rat_of_int n"
    using pow2_le_of_int [OF b(1)] .
  have B: "rat_of_int n + 1 \<le> 2 ^ Suc k"
    using of_int_less_pow2 [OF b(2)] .
  have pw2: "(2::rat) powi (int k + 1) = 2 ^ Suc k"
    by (simp add: power_int_add)
  have "2 powi (ilog 2 x) \<le> x" unfolding e power_int_of_nat using A nx(1) by linarith
  moreover have "x < 2 powi (ilog 2 x + 1)" unfolding e pw2 using B nx(2) by linarith
  ultimately show ?thesis ..
next
  case False
  define y where "y = 1 / x"
  define m where "m = \<lceil>y\<rceil> - 1"
  define k where "k = ndigits 2 m"
  have y: "1 < y" using False assms by (simp add: y_def)
  then have c: "2 \<le> \<lceil>y\<rceil>" by (simp add: le_ceiling_iff)
  then have m: "1 \<le> m" by (simp add: m_def)
  have b: "2 ^ k \<le> m" "m < 2 ^ Suc k"
    using ndigits_bounds [of 2 m] m by (simp_all add: k_def)
  have e: "ilog 2 x = - int (Suc k)" using False by (simp add: ilog_def k_def m_def y_def)
  have my: "rat_of_int m < y" "y \<le> rat_of_int m + 1"
    using ceiling_correct [of y] by (simp_all add: m_def)
  have u1: "rat_of_int m + 1 \<le> 2 ^ Suc k"
    using of_int_less_pow2 [OF b(2)] .
  have u2: "(2::rat) ^ k \<le> rat_of_int m"
    using pow2_le_of_int [OF b(1)] .
  have p1: "(2::rat) powi (- int (Suc k)) = 1 / 2 ^ Suc k"
    by (simp only: power_int_minus_divide power_int_of_nat)
  have p2: "(2::rat) powi (- int (Suc k) + 1) = 1 / 2 ^ k"
  proof -
    have "- int (Suc k) + 1 = - int k" by simp
    then show ?thesis by (simp only: power_int_minus_divide power_int_of_nat)
  qed
  have "y \<le> 2 ^ Suc k" using my u1 by linarith
  then have a1: "1 / 2 ^ Suc k \<le> x" using assms by (simp add: y_def field_simps)
  have "2 ^ k < y" using my u2 by linarith
  then have a2: "x < 1 / 2 ^ k" using assms by (simp add: y_def field_simps)
  have "2 powi (ilog 2 x) \<le> x" unfolding e p1 using a1 .
  moreover have "x < 2 powi (ilog 2 x + 1)" unfolding e p2 using a2 .
  ultimately show ?thesis ..
qed

lemma ilog2_mono:
  assumes "0 < x" "x \<le> y"
  shows "ilog 2 x \<le> ilog 2 y"
proof (rule ccontr)
  assume "\<not> ilog 2 x \<le> ilog 2 y"
  then have "ilog 2 y + 1 \<le> ilog 2 x" by simp
  then have "(2::rat) powi (ilog 2 y + 1) \<le> 2 powi (ilog 2 x)"
    by (simp add: power_int_increasing)
  moreover have "2 powi (ilog 2 x) \<le> x" using ilog2_bounds [OF assms(1)] by simp
  moreover have "y < 2 powi (ilog 2 y + 1)" using ilog2_bounds [of y] assms by simp
  ultimately show False using assms(2) by linarith
qed

lemma fl_pos_eq:
  "0 < x \<Longrightarrow> fl x = 2 powi (ilog 2 x - 52) * of_int (rne (x / 2 powi (ilog 2 x - 52)))"
  by (simp add: fl_def Let_def)

lemma fl_zero: "fl 0 = 0"
  by (simp add: fl_def)

lemma fl_minus: "fl (- x) = - fl x"
  by (simp add: fl_def Let_def rne_minus)

text \<open>A positive number and its double lie in the same binade.\<close>

lemma fl_binade:
  assumes "0 < x"
  shows "2 powi (ilog 2 x) \<le> fl x \<and> fl x \<le> 2 powi (ilog 2 x + 1)"
proof -
  define e where "e = ilog 2 x"
  define u :: rat where "u = 2 powi (e - 52)"
  have u: "0 < u" by (simp add: u_def)
  have b: "2 powi e \<le> x" "x < 2 powi (e + 1)"
    using ilog2_bounds [OF assms] by (simp_all add: e_def)
  have e1: "(2::rat) powi e = u * 2 ^ 52"
    by (simp add: u_def power_int_diff)
  have e2: "(2::rat) powi (e + 1) = u * 2 ^ 53"
    by (simp add: u_def power_int_diff power_int_add)
  have "of_int (2 ^ 52) \<le> x / u" using b(1) u unfolding e1 by (simp add: field_simps)
  then have "rne (of_int (2 ^ 52)) \<le> rne (x / u)" by (rule rne_mono)
  then have lo: "2 ^ 52 \<le> rne (x / u)" unfolding rne_of_int .
  have "x / u \<le> of_int (2 ^ 53)" using b(2) u unfolding e2 by (simp add: field_simps)
  then have "rne (x / u) \<le> rne (of_int (2 ^ 53))" by (rule rne_mono)
  then have hi: "rne (x / u) \<le> 2 ^ 53" unfolding rne_of_int .
  have f: "fl x = u * of_int (rne (x / u))"
    using assms by (simp add: fl_pos_eq u_def e_def)
  have "u * 2 ^ 52 \<le> u * of_int (rne (x / u))"
    using lo u by (simp add: of_int_le_iff [symmetric] del: of_int_le_iff)
  moreover have "u * of_int (rne (x / u)) \<le> u * 2 ^ 53"
    using hi u by (simp add: of_int_le_iff [symmetric] del: of_int_le_iff)
  ultimately show ?thesis unfolding f e_def [symmetric] e1 e2 by simp
qed

lemma fl_pos: "0 < x \<Longrightarrow> 0 < fl x"
proof -
  assume x: "0 < x"
  have "(0::rat) < 2 powi (ilog 2 x)" by simp
  then show ?thesis using fl_binade [OF x] by linarith
qed

lemma fl_mono_pos:
  assumes "0 < x" "x \<le> y"
  shows "fl x \<le> fl y"
proof (cases "ilog 2 x = ilog 2 y")
  case True
  define u :: rat where "u = 2 powi (ilog 2 x - 52)"
  have u: "0 < u" by (simp add: u_def)
  have y: "0 < y" using assms by simp
  have "x / u \<le> y / u" using assms(2) u by (simp add: divide_right_mono)
  then have "rne (x / u) \<le> rne (y / u)" by (rule rne_mono)
  then have "u * of_int (rne (x / u)) \<le> u * of_int (rne (y / u))"
    using u by simp
  then show ?thesis
    using assms(1) y True by (simp add: fl_pos_eq u_def)
next
  case False
  have y: "0 < y" using assms by simp
  have "ilog 2 x \<le> ilog 2 y" using assms by (rule ilog2_mono)
  with False have "ilog 2 x + 1 \<le> ilog 2 y" by simp
  then have "(2::rat) powi (ilog 2 x + 1) \<le> 2 powi (ilog 2 y)"
    by (simp add: power_int_increasing)
  then show ?thesis using fl_binade [OF assms(1)] fl_binade [OF y] by linarith
qed

text \<open>Rounding to a double is monotone.\<close>

lemma fl_mono: "x \<le> y \<Longrightarrow> fl x \<le> fl y"
proof -
  assume xy: "x \<le> y"
  consider "0 < x" | "x \<le> 0" "0 < y" | "x < 0" "y = 0" | "x = 0" "y = 0" | "y < 0"
    using xy by linarith
  then show ?thesis
  proof cases
    case 1 then show ?thesis using xy by (rule fl_mono_pos)
  next
    case 2
    have "fl x \<le> 0"
    proof (cases "x = 0")
      case True then show ?thesis by (simp add: fl_zero)
    next
      case False
      with 2 have "0 < - x" by simp
      then have "0 < fl (- x)" by (rule fl_pos)
      then show ?thesis by (simp add: fl_minus)
    qed
    moreover have "0 < fl y" using 2(2) by (rule fl_pos)
    ultimately show ?thesis by linarith
  next
    case 3
    then have "0 < - x" by simp
    then have "0 < fl (- x)" by (rule fl_pos)
    then have "fl x < 0" by (simp add: fl_minus)
    then show ?thesis using 3 by (simp add: fl_zero)
  next
    case 4 then show ?thesis by simp
  next
    case 5
    then have "0 < - y" "- y \<le> - x" using xy by simp_all
    then have "fl (- y) \<le> fl (- x)" by (rule fl_mono_pos)
    then show ?thesis by (simp add: fl_minus)
  qed
qed

text \<open>A significand of at most 53 bits times a power of two is a double.\<close>

lemma fl_exact_pos:
  assumes "0 < m" "m < 2 ^ 53"
  shows "fl (of_int m * 2 powi k) = of_int m * 2 powi k"
proof -
  define x :: rat where "x = of_int m * 2 powi k"
  define e where "e = ilog 2 x"
  have x: "0 < x" using assms(1) by (simp add: x_def)
  have "2 powi e \<le> x" using ilog2_bounds [OF x] by (simp add: e_def)
  moreover have "x < 2 ^ 53 * 2 powi k"
  proof -
    have "rat_of_int m < rat_of_int (2 ^ 53)" using assms(2) by (simp only: of_int_less_iff)
    then show ?thesis by (simp add: x_def)
  qed
  ultimately have lt: "(2::rat) powi e < 2 powi (53 + k)"
    by (simp add: power_int_add)
  have "e < 53 + k"
  proof (rule ccontr)
    assume "\<not> e < 53 + k"
    then have "53 + k \<le> e" by simp
    then have "(2::rat) powi (53 + k) \<le> 2 powi e" by (simp add: power_int_increasing)
    with lt show False by simp
  qed
  then have j: "0 \<le> k - (e - 52)" by simp
  define j where "j = nat (k - (e - 52))"
  have kk: "k = (e - 52) + int j" using j by (simp add: j_def)
  have "(2::rat) powi k = 2 powi ((e - 52) + int j)" using kk by simp
  also have "\<dots> = 2 powi (e - 52) * 2 powi (int j)" by (rule power_int_add) simp
  finally have pk: "(2::rat) powi k = 2 powi (e - 52) * 2 ^ j" by simp
  have xe: "x = 2 powi (e - 52) * of_int (m * 2 ^ j)" by (simp add: x_def pk)
  have q: "x / 2 powi (e - 52) = of_int (m * 2 ^ j)" by (subst xe) simp
  have "fl x = 2 powi (e - 52) * of_int (rne (x / 2 powi (e - 52)))"
    using x by (simp add: fl_pos_eq e_def)
  also have "\<dots> = 2 powi (e - 52) * of_int (m * 2 ^ j)"
    unfolding q rne_of_int ..
  also have "\<dots> = x" using xe ..
  finally show ?thesis by (simp add: x_def)
qed

lemma fl_of_nat: "n < 2 ^ 53 \<Longrightarrow> fl (of_nat n) = of_nat n"
proof (cases "n = 0")
  case True then show ?thesis by (simp add: fl_zero)
next
  case False
  assume "n < 2 ^ 53"
  then have "int n < 2 ^ 53" by (metis of_nat_less_iff of_nat_numeral of_nat_power)
  moreover have "0 < int n" using False by simp
  ultimately show ?thesis using fl_exact_pos [of "int n" 0] by simp
qed

lemma fl_half: "fl (1 / 2) = 1 / 2"
  using fl_exact_pos [of 1 "- 1"] by simp

lemma fl_one: "fl 1 = 1"
  using fl_of_nat [of 1] by simp

lemma fl_two: "fl 2 = 2"
  using fl_of_nat [of 2] by simp

section \<open>What the handlers change\<close>

lemma compressImage_keeps:
  "originalFile (st (compressImage pf w)) = originalFile (st w)"
  "originalImage (st (compressImage pf w)) = originalImage (st w)"
  "quality (st (compressImage pf w)) = quality (st w)"
  "outputFormat (st (compressImage pf w)) = outputFormat (st w)"
  "aspectRatio (st (compressImage pf w)) = aspectRatio (st w)"
  "lockAspectRatio (st (compressImage pf w)) = lockAspectRatio (st w)"
  "widthInput_value (els (compressImage pf w)) = widthInput_value (els w)"
  "heightInput_value (els (compressImage pf w)) = heightInput_value (els w)"
  "alerts (compressImage pf w) = alerts w"
  "downloads (compressImage pf w) = downloads w"
  "reads (compressImage pf w) = reads w"
  "timers (compressImage pf w) = timers w"
  "clock (compressImage pf w) = clock w"
  by (simp_all add: compressImage_def toBlobCallback_def updateCompressedInfo_def Let_def
      split: option.splits)

lemma compressImage_calls:
  "encodeCalls (compressImage pf w) =
     (case originalImage (st w) of
        None \<Rightarrow> encodeCalls w
      | Some img \<Rightarrow> encodeCalls w @ [encodeRequest img w])"
  by (simp add: compressImage_def toBlobCallback_def updateCompressedInfo_def encodeRequest_def
      Let_def split: option.splits)

lemma compressImage_blob:
  "compressedBlob (st (compressImage pf w)) =
     (case originalImage (st w) of
        None \<Rightarrow> compressedBlob (st w)
      | Some img \<Rightarrow>
          (case toBlob pf (encodeRequest img w) of
             None \<Rightarrow> compressedBlob (st w)
           | Some b \<Rightarrow> Some b))"
  by (simp add: compressImage_def toBlobCallback_def updateCompressedInfo_def encodeRequest_def
      Let_def split: option.splits)

lemma loadSource_state:
  assumes "startsWith (file_type f) ''image/''"
  shows "originalFile (st (loadSource pf f iw ih w)) = Some f"
    and "originalImage (st (loadSource pf f iw ih w))
           = Some \<lparr>img_width = iw, img_height = ih, img_src = f\<rparr>"
    and "aspectRatio (st (loadSource pf f iw ih w)) = fdiv (Num (of_nat iw)) (Num (of_nat ih))"
    and "quality (st (loadSource pf f iw ih w)) = quality (st w)"
    and "outputFormat (st (loadSource pf f iw ih w)) = outputFormat (st w)"
    and "lockAspectRatio (st (loadSource pf f iw ih w)) = lockAspectRatio (st w)"
    and "widthInput_value (els (loadSource pf f iw ih w)) = numToString (Num (of_nat iw))"
    and "heightInput_value (els (loadSource pf f iw ih w)) = numToString (Num (of_nat ih))"
  using assms
  by (simp_all add: loadSource_def handleFile_def imgOnload_def updateOriginalInfo_def
      compressImage_keeps Let_def)

text \<open>
  An input event on the slider adds one timer and removes none: the variable
  \<^verbatim>\<open>timeout\<close> that \<^verbatim>\<open>clearTimeout\<close> reads belongs to the closure made in this very
  event and is still unassigned.
\<close>

lemma qualitySlider_input_timers:
  "timers (qualitySlider_input v w) =
     timers w @ [\<lparr>timer_id = nextTimer w, timer_due = clock w + 100,
                  timer_cell = nextCell w, timer_func = CompressImage\<rparr>]"
  by (simp add: qualitySlider_input_def debounce_def executedFunction_def setTimeout_def
      clearTimeout_def Let_def)

text \<open>
  With the aspect ratio locked and an image loaded, an input event on the width field writes
  the height field.
\<close>

lemma widthInput_input_height:
  assumes "originalImage (st w) = Some img" and "lockAspectRatio (st w)"
  shows "heightInput_value (els (widthInput_input v w)) =
     numToString (mathRound (fdiv (orElse (parseInt v) (Num (of_nat (img_width img))))
                                  (aspectRatio (st w))))"
  using assms
  by (simp add: widthInput_input_def debounce_def executedFunction_def setTimeout_def
      clearTimeout_def Let_def)

text \<open>A dimension whose text parses to \<open>NaN\<close> or to zero falls back to the image's own.\<close>

lemma dimension_fallback:
  assumes "parseInt (widthInput_value (els w)) = NaN \<or> parseInt (widthInput_value (els w)) = Num 0"
  shows "enc_width (encodeRequest img w) = Num (of_nat (img_width img))"
  using assms by (auto simp: encodeRequest_def orElse_def)

section \<open>Values of the conversions\<close>

lemma parseInt_values:
  "parseInt ''800'' = Num 800" "parseInt ''600'' = Num 600"
  "parseInt ''90'' = Num 90" "parseInt ''85'' = Num 85" "parseInt ''80'' = Num 80"
  "parseInt ''50'' = Num 50" "parseInt ''400'' = Num 400" "parseInt ''1'' = Num 1"
  "parseInt ''4'' = Num 4" "parseInt ''0'' = Num 0"
  "parseInt ''-5'' = Num (- 5)" "parseInt ''-4'' = Num (- 4)"
  by code_simp+

lemma numToString_values:
  "numToString (Num 800) = ''800''" "numToString (Num 600) = ''600''"
  "numToString (Num 90) = ''90''" "numToString (Num 85) = ''85''"
  "numToString (Num 80) = ''80''" "numToString (Num 50) = ''50''"
  "numToString (Num 4) = ''4''" "numToString (Num 1) = ''1''"
  "numToString (Num 0) = ''0''" "numToString (Num 300) = ''300''"
  "numToString (Num (- 4)) = ''-4''"
  by code_simp+

lemma sample_rounds:
  "mathRound (fdiv (Num 400) (fdiv (Num 800) (Num 600))) = Num 300"
  "mathRound (fdiv (Num (- 5)) (fdiv (Num 800) (Num 600))) = Num (- 4)"
  by code_simp+

lemma banner_values:
  "parseInt ''2'' = Num 2"
  "mathRound (fdiv (Num 2) (fdiv (Num 1200) (Num 200))) = Num 0"
  by code_simp+

lemma fl_four_thirds: "fl (4 / 3) < 2"
  by code_simp

lemma sampleLog_bounds:
  "6 \<le> fl (6931471805599453 / 10 ^ 15)"
  "fl (6931471805599453 / 10 ^ 15) \<le> fl (7336936913707618 / 10 ^ 15)"
  "fl (7336936913707618 / 10 ^ 15) \<le> 8"
  by code_simp+

lemma sample_logs:
  "mathFloor (fdiv (sampleLog 1536) (sampleLog 1024)) = Num 1"
  "mathFloor (fdiv (sampleLog 1048576) (sampleLog 1024)) = Num 2"
  by code_simp+

lemma size_strings:
  "numToString (parseFloat (toFixed2 (fdiv (Num 1536) (mathPow 1024 (Num 1))))) = ''1.5''"
  "numToString (parseFloat (toFixed2 (fdiv (Num 1048576) (mathPow 1024 (Num 2))))) = ''1''"
  "sizesAt (Num 1) = ''KB''" "sizesAt (Num 2) = ''MB''"
  by code_simp+

lemma formatFileSize_unfold:
  "0 < bytes \<Longrightarrow> formatFileSize pf bytes =
     numToString (parseFloat (toFixed2 (fdiv (Num (of_nat bytes))
        (mathPow 1024 (mathFloor (fdiv (mathLog pf (of_nat bytes)) (mathLog pf 1024)))))))
     @ '' '' @ sizesAt (mathFloor (fdiv (mathLog pf (of_nat bytes)) (mathLog pf 1024)))"
  by (simp add: formatFileSize_def Let_def)

lemma sample_formatFileSize:
  "formatFileSize samplePlatform 1536 = ''1.5 KB''"
  "formatFileSize samplePlatform 1048576 = ''1 MB''"
  "formatFileSize failingPlatform 1048576 = ''1 MB''"
proof -
  have m: "mathLog samplePlatform = sampleLog" "mathLog failingPlatform = sampleLog"
    by (simp_all add: samplePlatform_def failingPlatform_def)
  show "formatFileSize samplePlatform 1536 = ''1.5 KB''"
    by (simp only: formatFileSize_unfold [of 1536, simplified] m sample_logs size_strings) simp
  show "formatFileSize samplePlatform 1048576 = ''1 MB''"
    by (simp only: formatFileSize_unfold [of 1048576, simplified] m sample_logs size_strings) simp
  show "formatFileSize failingPlatform 1048576 = ''1 MB''"
    by (simp only: formatFileSize_unfold [of 1048576, simplified] m sample_logs size_strings) simp
qed

lemma sample_savings:
  "savingsText (savedPercent 1536 1048576) = ''-100%''"
  by (simp add: savedPercent_def) code_simp

lemma sample_savings_sign:
  "geZero (savedPercent 1536 1048576)"
  by (simp add: savedPercent_def) code_simp

lemmas sample_defs =
  loaded_def loadSource_def handleFile_def imgOnload_def updateOriginalInfo_def
  compressImage_def toBlobCallback_def updateCompressedInfo_def initialWorld_def
  initialState_def samplePage_def sampleFile_def samplePlatform_def failingPlatform_def
  startsWith_def orElse_def Let_def

lemmas control_defs =
  qualitySlider_input_def widthInput_input_def formatButton_click_def debounce_def
  executedFunction_def setTimeout_def clearTimeout_def nextDue_def fire_def later_def

lemmas sample_values =
  parseInt_values numToString_values sample_rounds sample_savings sample_savings_sign
  sample_formatFileSize [unfolded samplePlatform_def failingPlatform_def]

section \<open>The claims\<close>

text \<open>
  C1 fails on the code. The slider goes to 90, 85 and 80 within 20 ms of each other, well
  inside the quiet window of 100 ms. Each input event calls \<^verbatim>\<open>debounce\<close> anew, so each
  sets a timer of its own and cancels none: three timers are pending after the third event,
  no encoding has happened yet, and once the window has passed the encoder has been called
  three times, each time with the quality \<open>80 / 100\<close>.
\<close>

theorem three_quality_changes_three_encodes:
  "length (timers threeQualityChanges) = 3
   \<and> encodeCalls threeQualityChanges = encodeCalls loaded
   \<and> map enc_quality
         (drop (length (encodeCalls loaded))
            (encodeCalls (advance samplePlatform 1000 threeQualityChanges)))
       = [Some (fdiv (Num 80) (Num 100)), Some (fdiv (Num 80) (Num 100)),
          Some (fdiv (Num 80) (Num 100))]"
  by (simp add: threeQualityChanges_def control_defs advance.simps sample_defs sample_values)

text \<open>
  C2, as the claim states it, fails: for an image 1200 wide and 200 high and the width 2,
  the height field becomes \<^verbatim>\<open>0\<close>.
\<close>

theorem aspect_locked_height_zero:
  "heightInput_value
     (els (widthInput_input ''2''
        (loadSource samplePlatform sampleFile 1200 200 (initialWorld samplePage))))
   = ''0''"
proof -
  have a: "startsWith (file_type sampleFile) ''image/''"
    by (simp add: startsWith_def sampleFile_def)
  have l: "lockAspectRatio
      (st (loadSource samplePlatform sampleFile 1200 200 (initialWorld samplePage)))"
    by (simp add: loadSource_state [OF a] initialWorld_def initialState_def)
  show ?thesis
    by (simp add: widthInput_input_height [OF loadSource_state(2) [OF a] l]
        loadSource_state [OF a] orElse_def sample_values banner_values)
qed

text \<open>
  C2, amended. With the aspect ratio locked, a width field whose text parses to a positive
  integer \<open>n\<close> below \<open>2 ^ 52\<close> sets the height field to
  \<^verbatim>\<open>Math.round(n / (W0 / H0))\<close>, computed in doubles. That height is at least 1 whenever
  \<open>W0 \<le> 2 * n * H0\<close>, and can be 0 otherwise.
\<close>

theorem aspect_locked_height:
  assumes "lockAspectRatio (st w)" and "startsWith (file_type f) ''image/''"
    and "parseInt v = Num (of_nat n)" and "0 < n" and "n < 2 ^ 52"
  shows "heightInput_value (els (widthInput_input v (loadSource pf f W0 H0 w)))
           = numToString (mathRound (fdiv (Num (of_nat n))
                                          (fdiv (Num (of_nat W0)) (Num (of_nat H0)))))
       \<and> (0 < W0 \<and> W0 \<le> 2 * n * H0 \<longrightarrow>
            (\<exists>k. 1 \<le> k \<and> mathRound (fdiv (Num (of_nat n))
                                       (fdiv (Num (of_nat W0)) (Num (of_nat H0))))
                          = Num (of_int k)))"
proof
  have l: "lockAspectRatio (st (loadSource pf f W0 H0 w))"
    using assms(1) by (simp add: loadSource_state [OF assms(2)])
  show "heightInput_value (els (widthInput_input v (loadSource pf f W0 H0 w)))
           = numToString (mathRound (fdiv (Num (of_nat n))
                                          (fdiv (Num (of_nat W0)) (Num (of_nat H0)))))"
    using assms(3,4)
    by (simp add: widthInput_input_height [OF loadSource_state(2) [OF assms(2)] l]
        loadSource_state [OF assms(2)] orElse_def)
next
  show "0 < W0 \<and> W0 \<le> 2 * n * H0 \<longrightarrow>
            (\<exists>k. 1 \<le> k \<and> mathRound (fdiv (Num (of_nat n))
                                       (fdiv (Num (of_nat W0)) (Num (of_nat H0))))
                          = Num (of_int k))"
  proof
    assume h: "0 < W0 \<and> W0 \<le> 2 * n * H0"
    then have H0: "0 < H0" by (cases "H0 = 0") simp_all
    define a :: rat where "a = of_nat W0 / of_nat H0"
    define r where "r = fl a"
    have a: "0 < a" using h H0 by (simp add: a_def)
    have "rat_of_nat W0 \<le> rat_of_nat (2 * n * H0)" using h by (simp only: of_nat_le_iff)
    then have a2: "a \<le> rat_of_nat (2 * n)" using H0 by (simp add: a_def field_simps)
    have n2: "2 * n < 2 ^ 53" using assms(5) by simp
    have r0: "0 < r" unfolding r_def using a by (rule fl_pos)
    have "r \<le> fl (rat_of_nat (2 * n))" unfolding r_def using a2 by (rule fl_mono)
    then have r2: "r \<le> rat_of_nat (2 * n)" using fl_of_nat [OF n2] by simp
    define x where "x = fl (rat_of_nat n / r)"
    have "1 / 2 \<le> rat_of_nat n / r"
      using r0 r2 by (simp add: field_simps)
    then have "fl (1 / 2) \<le> x" unfolding x_def by (rule fl_mono)
    then have x: "1 / 2 \<le> x" by (simp add: fl_half)
    have d1: "fdiv (Num (of_nat W0)) (Num (of_nat H0)) = Num r"
      using H0 by (simp add: fdiv.simps r_def a_def)
    have d2: "fdiv (Num (of_nat n)) (Num r) = Num x"
      using r0 by (simp add: fdiv.simps x_def)
    have m: "mathRound (fdiv (Num (of_nat n)) (fdiv (Num (of_nat W0)) (Num (of_nat H0))))
        = Num (of_int \<lfloor>x + 1 / 2\<rfloor>)"
      by (simp add: d1 d2 mathRound.simps)
    have "1 \<le> \<lfloor>x + 1 / 2\<rfloor>" using x by (simp add: le_floor_iff)
    with m show "\<exists>k. 1 \<le> k \<and> mathRound (fdiv (Num (of_nat n))
                                       (fdiv (Num (of_nat W0)) (Num (of_nat H0))))
                          = Num (of_int k)"
      by blast
  qed
qed

theorem aspect_locked_height_witness:
  "lockAspectRatio (st (initialWorld samplePage))
   \<and> startsWith (file_type sampleFile) ''image/''
   \<and> parseInt ''400'' = Num (of_nat 400)
   \<and> heightInput_value
        (els (widthInput_input ''400'' (loadSource samplePlatform sampleFile 800 600
           (initialWorld samplePage)))) = ''300''
   \<and> (\<exists>k. 1 \<le> k \<and> mathRound (fdiv (Num (of_nat 400))
                               (fdiv (Num (of_nat 800)) (Num (of_nat 600))))
                  = Num (of_int k))"
proof -
  have h1: "lockAspectRatio (st (initialWorld samplePage))"
    by (simp add: initialWorld_def initialState_def)
  have h2: "startsWith (file_type sampleFile) ''image/''"
    by (simp add: startsWith_def sampleFile_def)
  have h3: "parseInt ''400'' = Num (of_nat 400)"
    by (simp add: parseInt_values)
  have h4: "(0::nat) < 400" "(400::nat) < 2 ^ 52" by simp_all
  show ?thesis
    using h1 h2 h3 aspect_locked_height [OF h1 h2 h3 h4, where pf = samplePlatform
        and ?W0.0 = 800 and ?H0.0 = 600]
    by (simp add: sample_values)
qed


text \<open>
  C3, as the claim states it, fails: after the slider went to 50 and PNG was chosen, loading
  a file leaves the quality at 50 and the format at PNG.
\<close>

theorem load_keeps_quality_and_format:
  "quality (st (loadSource samplePlatform sampleFile 800 600 adjusted)) = Num 50
   \<and> outputFormat (st (loadSource samplePlatform sampleFile 800 600 adjusted)) = ''image/png''"
proof -
  have a: "startsWith (file_type sampleFile) ''image/''"
    by (simp add: startsWith_def sampleFile_def)
  have q: "quality (st adjusted) = Num 50"
    by (simp add: adjusted_def control_defs sample_defs sample_values)
  have f: "outputFormat (st adjusted) = ''image/png''"
    by (simp add: adjusted_def control_defs sample_defs sample_values)
  show ?thesis using q f by (simp add: loadSource_state [OF a])
qed

text \<open>
  C3, amended. Loading an image file sets the width and height inputs to the image's own
  width and height and the aspect ratio to their quotient, and leaves quality and format as
  they were; the encoded result becomes that of the first encoding if the encoder delivers
  one, and stays the earlier one if not. \<^verbatim>\<open>resetCompressor\<close> puts quality back to 80 and
  format to JPEG and drops the encoded result, so a load after a reset has quality 80,
  format JPEG and the image's own dimensions.
\<close>

theorem load_and_reset_defaults:
  assumes "startsWith (file_type f) ''image/''"
  shows "quality (st (loadSource pf f iw ih w)) = quality (st w)
     \<and> outputFormat (st (loadSource pf f iw ih w)) = outputFormat (st w)
     \<and> widthInput_value (els (loadSource pf f iw ih w)) = numToString (Num (of_nat iw))
     \<and> heightInput_value (els (loadSource pf f iw ih w)) = numToString (Num (of_nat ih))
     \<and> aspectRatio (st (loadSource pf f iw ih w)) = fdiv (Num (of_nat iw)) (Num (of_nat ih))
     \<and> (\<exists>c. encodeCalls (loadSource pf f iw ih w) = encodeCalls w @ [c]
           \<and> compressedBlob (st (loadSource pf f iw ih w)) =
               (case toBlob pf c of None \<Rightarrow> compressedBlob (st w) | Some b \<Rightarrow> Some b))
     \<and> compressedBlob (st (resetCompressor w)) = None
     \<and> quality (st (loadSource pf f iw ih (resetCompressor w))) = Num 80
     \<and> outputFormat (st (loadSource pf f iw ih (resetCompressor w))) = ''image/jpeg''
     \<and> widthInput_value (els (loadSource pf f iw ih (resetCompressor w)))
         = numToString (Num (of_nat iw))
     \<and> heightInput_value (els (loadSource pf f iw ih (resetCompressor w)))
         = numToString (Num (of_nat ih))"
proof -
  have calls: "\<exists>c. encodeCalls (loadSource pf f iw ih w) = encodeCalls w @ [c]
           \<and> compressedBlob (st (loadSource pf f iw ih w)) =
               (case toBlob pf c of None \<Rightarrow> compressedBlob (st w) | Some b \<Rightarrow> Some b)"
    using assms
    by (simp add: loadSource_def handleFile_def imgOnload_def updateOriginalInfo_def
        compressImage_calls compressImage_blob Let_def
        split: option.splits)
  have reset: "compressedBlob (st (resetCompressor w)) = None"
    "quality (st (resetCompressor w)) = Num 80"
    "outputFormat (st (resetCompressor w)) = ''image/jpeg''"
    by (simp_all add: resetCompressor_def Let_def)
  show ?thesis
    using calls reset by (simp add: loadSource_state [OF assms])
qed

theorem load_and_reset_defaults_witness:
  "startsWith (file_type sampleFile) ''image/''
   \<and> quality (st (loadSource samplePlatform sampleFile 800 600 (resetCompressor adjusted))) = Num 80
   \<and> outputFormat (st (loadSource samplePlatform sampleFile 800 600 (resetCompressor adjusted)))
       = ''image/jpeg''
   \<and> widthInput_value (els (loadSource samplePlatform sampleFile 800 600 (resetCompressor adjusted)))
       = ''800''
   \<and> heightInput_value (els (loadSource samplePlatform sampleFile 800 600 (resetCompressor adjusted)))
       = ''600''"
proof -
  have h: "startsWith (file_type sampleFile) ''image/''"
    by (simp add: startsWith_def sampleFile_def)
  show ?thesis
    using h load_and_reset_defaults [OF h, where pf = samplePlatform and iw = 800 and ih = 600
        and w = adjusted]
    by (simp add: numToString_values)
qed

text \<open>
  C4, as the claim states it, fails: for a source of 8000 bytes and a result of 9000 bytes the
  program computes \<open>-12\<close>, where \<open>(1 - E / S) * 100 = -12.5\<close> rounded half away from zero
  is \<open>-13\<close>.
\<close>

theorem savedPercent_not_half_away:
  "savedPercent 9000 8000 = Num (- 12) \<and> spec_savingsPercent 9000 8000 = - 13"
proof
  show "savedPercent 9000 8000 = Num (- 12)"
    by (simp add: savedPercent_def) code_simp
  show "spec_savingsPercent 9000 8000 = - 13"
    by (simp add: spec_savingsPercent_def roundHalfAway_def)
qed

text \<open>
  C4, amended. For a source of \<open>S > 0\<close> bytes and a result of \<open>E\<close> bytes the savings are
  \<^verbatim>\<open>Math.round\<close> of the double \<open>(1 - E / S) * 100\<close>: the integer \<open>p\<close> nearest to that
  double, the upper one on a tie (\<open>p - 1/2 \<le> x < p + 1/2\<close>). They are shown as \<open>-p%\<close> when
  \<open>p \<ge> 0\<close> and as \<open>+\<bar>p\<bar>%\<close> otherwise. 1,000,000 and 750,000 bytes give 25, shown as
  \<^verbatim>\<open>-25%\<close>; 1,000,000 and 1,200,000 bytes give \<open>-20\<close>, shown as \<^verbatim>\<open>+20%\<close>.
\<close>

theorem savedPercent_nearest:
  "(0 < S \<longrightarrow>
      (\<exists>x p. fmul (fsub (Num 1) (fdiv (Num (of_nat E)) (Num (of_nat S)))) (Num 100) = Num x
         \<and> savedPercent E S = Num (of_int p)
         \<and> of_int p - 1 / 2 \<le> x \<and> x < of_int p + 1 / 2
         \<and> savingsText (savedPercent E S) =
             (if 0 \<le> p then ''-'' @ numToString (Num (of_int p)) @ ''%''
              else ''+'' @ numToString (Num (of_int (- p))) @ ''%'')))
   \<and> savedPercent 750000 1000000 = Num 25
   \<and> savingsText (savedPercent 750000 1000000) = ''-25%''
   \<and> savedPercent 1200000 1000000 = Num (- 20)
   \<and> savingsText (savedPercent 1200000 1000000) = ''+20%''"
proof (intro conjI impI)
  assume S: "0 < S"
  define x where "x = fl (fl (1 - fl (of_nat E / of_nat S)) * 100)"
  define p where "p = \<lfloor>x + 1 / 2\<rfloor>"
  have v: "fmul (fsub (Num 1) (fdiv (Num (of_nat E)) (Num (of_nat S)))) (Num 100) = Num x"
    using S by (simp add: fdiv.simps fsub.simps fmul.simps x_def)
  have s: "savedPercent E S = Num (of_int p)"
    by (simp add: savedPercent_def v mathRound.simps p_def)
  have lo: "of_int p - 1 / 2 \<le> x"
  proof -
    have "of_int p \<le> x + 1 / 2" unfolding p_def by (rule of_int_floor_le)
    then show ?thesis by simp
  qed
  have hi: "x < of_int p + 1 / 2"
  proof -
    have "x + 1 / 2 < of_int p + 1" unfolding p_def by linarith
    then show ?thesis by simp
  qed
  have t: "savingsText (savedPercent E S) =
             (if 0 \<le> p then ''-'' @ numToString (Num (of_int p)) @ ''%''
              else ''+'' @ numToString (Num (of_int (- p))) @ ''%'')"
    by (simp add: s savingsText_def mathAbs.simps)
  show "\<exists>x p. fmul (fsub (Num 1) (fdiv (Num (of_nat E)) (Num (of_nat S)))) (Num 100) = Num x
         \<and> savedPercent E S = Num (of_int p)
         \<and> of_int p - 1 / 2 \<le> x \<and> x < of_int p + 1 / 2
         \<and> savingsText (savedPercent E S) =
             (if 0 \<le> p then ''-'' @ numToString (Num (of_int p)) @ ''%''
              else ''+'' @ numToString (Num (of_int (- p))) @ ''%'')"
    using v s lo hi t by blast
next
  show "savedPercent 750000 1000000 = Num 25"
    by (simp add: savedPercent_def) code_simp
  show "savingsText (savedPercent 750000 1000000) = ''-25%''"
    by (simp add: savedPercent_def) code_simp
  show "savedPercent 1200000 1000000 = Num (- 20)"
    by (simp add: savedPercent_def) code_simp
  show "savingsText (savedPercent 1200000 1000000) = ''+20%''"
    by (simp add: savedPercent_def) code_simp
qed

theorem savedPercent_nearest_witness:
  "(0::nat) < 8000
   \<and> (\<exists>x p. fmul (fsub (Num 1) (fdiv (Num (of_nat 9000)) (Num (of_nat 8000)))) (Num 100) = Num x
         \<and> savedPercent 9000 8000 = Num (of_int p)
         \<and> of_int p - 1 / 2 \<le> x \<and> x < of_int p + 1 / 2
         \<and> savingsText (savedPercent 9000 8000) =
             (if 0 \<le> p then ''-'' @ numToString (Num (of_int p)) @ ''%''
              else ''+'' @ numToString (Num (of_int (- p))) @ ''%''))"
proof -
  have h: "(0::nat) < 8000" by simp
  show ?thesis using h savedPercent_nearest [of 8000 9000] by blast
qed


text \<open>
  C5. With the format PNG selected and an image loaded, \<^verbatim>\<open>compressImage\<close> calls the
  encoder once, with the quality argument \<^verbatim>\<open>undefined\<close>, and \<^verbatim>\<open>state.quality\<close> stays
  what it was.
\<close>

theorem png_quality_omitted:
  assumes "outputFormat (st w) = ''image/png''" and "originalImage (st w) = Some img"
  shows "(\<exists>c. encodeCalls (compressImage pf w) = encodeCalls w @ [c]
             \<and> enc_format c = ''image/png'' \<and> enc_quality c = None)
       \<and> quality (st (compressImage pf w)) = quality (st w)"
  using assms by (simp add: compressImage_calls compressImage_keeps encodeRequest_def)

theorem png_quality_omitted_witness:
  "outputFormat (st adjusted) = ''image/png''
   \<and> originalImage (st adjusted) = Some \<lparr>img_width = 800, img_height = 600, img_src = sampleFile\<rparr>
   \<and> (\<exists>c. encodeCalls (compressImage samplePlatform adjusted) = encodeCalls adjusted @ [c]
          \<and> enc_format c = ''image/png'' \<and> enc_quality c = None)
   \<and> quality (st (compressImage samplePlatform adjusted)) = Num 50"
proof -
  have f: "outputFormat (st adjusted) = ''image/png''"
    by (simp add: adjusted_def control_defs sample_defs sample_values)
  have i: "originalImage (st adjusted)
      = Some \<lparr>img_width = 800, img_height = 600, img_src = sampleFile\<rparr>"
    by (simp add: adjusted_def control_defs sample_defs sample_values)
  have q: "quality (st adjusted) = Num 50"
    by (simp add: adjusted_def control_defs sample_defs sample_values)
  show ?thesis
    using f i q png_quality_omitted [OF f i, where pf = samplePlatform] by simp
qed


text \<open>
  C6, as the claim states it, fails: with an encoded result in place and an encoder that
  delivers nothing, \<^verbatim>\<open>compressImage\<close> shows no alert, throws nothing and changes no
  element of the page, so no error is surfaced.
\<close>

theorem encode_failure_not_surfaced:
  "compressedBlob (st loaded) = Some \<lparr>blob_size = 1536, blob_data = 0\<rparr>
   \<and> alerts (compressImage failingPlatform loaded) = alerts loaded
   \<and> uncaught (compressImage failingPlatform loaded) = uncaught loaded
   \<and> els (compressImage failingPlatform loaded) = els loaded"
proof -
  have "compressedBlob (st loaded) = Some \<lparr>blob_size = 1536, blob_data = 0\<rparr>"
    by (simp add: sample_defs sample_values)
  moreover have "alerts (compressImage failingPlatform loaded) = alerts loaded"
    by (simp add: compressImage_keeps)
  moreover have "uncaught (compressImage failingPlatform loaded) = uncaught loaded"
    by (simp add: compressImage_def toBlobCallback_def failingPlatform_def Let_def
        split: option.splits)
  moreover have "els (compressImage failingPlatform loaded) = els loaded"
    by (simp add: compressImage_def toBlobCallback_def failingPlatform_def Let_def
        split: option.splits)
  ultimately show ?thesis by simp
qed

text \<open>
  C6, amended. When the encoder delivers no data, \<^verbatim>\<open>compressImage\<close> does nothing
  beyond having called it: the earlier encoded result and the whole of \<^verbatim>\<open>state\<close>, every
  element of the page, the alerts, the downloads and the timers are untouched, and no error
  is surfaced.
\<close>

theorem encode_failure_silent:
  assumes "\<forall>c. toBlob pf c = None"
  shows "st (compressImage pf w) = st w
     \<and> els (compressImage pf w) = els w
     \<and> alerts (compressImage pf w) = alerts w
     \<and> uncaught (compressImage pf w) = uncaught w
     \<and> downloads (compressImage pf w) = downloads w
     \<and> timers (compressImage pf w) = timers w
     \<and> encodeCalls (compressImage pf w) =
         (case originalImage (st w) of
            None \<Rightarrow> encodeCalls w
          | Some img \<Rightarrow> encodeCalls w @ [encodeRequest img w])"
  using assms
  by (simp add: compressImage_def toBlobCallback_def encodeRequest_def Let_def
      split: option.splits)

theorem encode_failure_silent_witness:
  "(\<forall>c. toBlob failingPlatform c = None)
   \<and> st (compressImage failingPlatform loaded) = st loaded
   \<and> compressedBlob (st (compressImage failingPlatform loaded))
       = Some \<lparr>blob_size = 1536, blob_data = 0\<rparr>
   \<and> els (compressImage failingPlatform loaded) = els loaded
   \<and> alerts (compressImage failingPlatform loaded) = alerts loaded"
proof -
  have h: "\<forall>c. toBlob failingPlatform c = None"
    by (simp add: failingPlatform_def)
  have b: "compressedBlob (st loaded) = Some \<lparr>blob_size = 1536, blob_data = 0\<rparr>"
    by (simp add: sample_defs sample_values)
  show ?thesis
    using h b encode_failure_silent [OF h, where w = loaded] by simp
qed

text \<open>
  C7. A file whose media type does not start with \<^verbatim>\<open>image/\<close> is rejected: the user is
  alerted, and nothing else happens. The state, the page, the file reads, the encoder calls
  and the timers are as before, whatever image and result were there.
\<close>

theorem handleFile_rejects_non_image:
  assumes "\<not> startsWith (file_type f) ''image/''"
  shows "handleFile f w = w\<lparr>alerts := alerts w @ [''Please upload an image file'']\<rparr>
    \<and> loadSource pf f iw ih w = handleFile f w
    \<and> st (loadSource pf f iw ih w) = st w
    \<and> els (loadSource pf f iw ih w) = els w
    \<and> reads (loadSource pf f iw ih w) = reads w
    \<and> encodeCalls (loadSource pf f iw ih w) = encodeCalls w
    \<and> timers (loadSource pf f iw ih w) = timers w"
  using assms by (simp add: handleFile_def loadSource_def)

theorem handleFile_rejects_non_image_witness:
  "\<not> startsWith (file_type textFile) ''image/''
   \<and> st (loadSource samplePlatform textFile 800 600 loaded) = st loaded
   \<and> els (loadSource samplePlatform textFile 800 600 loaded) = els loaded
   \<and> handleFile textFile loaded
       = loaded\<lparr>alerts := alerts loaded @ [''Please upload an image file'']\<rparr>"
proof -
  have h: "\<not> startsWith (file_type textFile) ''image/''"
    by (simp add: startsWith_def textFile_def)
  show ?thesis
    using h handleFile_rejects_non_image [OF h, where w = loaded and pf = samplePlatform
        and iw = 800 and ih = 600]
    by simp
qed

text \<open>
  C8 fails on the code for a negative input. With the 800 by 600 image loaded the user types
  \<^verbatim>\<open>-5\<close> into the width field; the locked aspect ratio writes \<^verbatim>\<open>-4\<close> into the height
  field, and the encoding that follows is asked for a canvas of width \<open>-5\<close> and height
  \<open>-4\<close>, not for the image's 800 by 600.
\<close>

theorem negative_width_reaches_encoder:
  "map (\<lambda>c. (enc_width c, enc_height c))
       (encodeCalls (advance samplePlatform 1000 (widthInput_input ''-5'' loaded)))
     = [(Num 800, Num 600), (Num (- 5), Num (- 4))]"
  by (simp add: control_defs advance.simps sample_defs sample_values)

text \<open>
  C9. \<^verbatim>\<open>formatFileSize\<close> gives \<^verbatim>\<open>0 Bytes\<close> for 0, \<^verbatim>\<open>1.5 KB\<close> for 1536 and
  \<^verbatim>\<open>1 MB\<close> for 1,048,576, on every platform whose \<^verbatim>\<open>Math.log\<close> returns for
  \<open>2 ^ 20\<close> twice what it returns for \<open>2 ^ 10\<close>, and values between 6 and 8, in order, for
  1024 and 1536.
\<close>

theorem formatFileSize_examples:
  assumes "mathLog pf 1024 = Num l" and "mathLog pf 1536 = Num m"
    and "mathLog pf 1048576 = Num (2 * l)"
    and "6 \<le> l" and "l \<le> m" and "m \<le> 8"
  shows "formatFileSize pf 0 = ''0 Bytes''
     \<and> formatFileSize pf 1536 = ''1.5 KB''
     \<and> formatFileSize pf 1048576 = ''1 MB''"
proof -
  have l: "0 < l" using assms(4) by simp
  have "1 \<le> m / l" using l assms(5) by (simp add: field_simps)
  then have "fl 1 \<le> fl (m / l)" by (rule fl_mono)
  then have lo: "1 \<le> fl (m / l)" by (simp add: fl_one)
  have "m / l \<le> 4 / 3" using l assms(4,6) by (simp add: field_simps)
  then have "fl (m / l) \<le> fl (4 / 3)" by (rule fl_mono)
  then have hi: "fl (m / l) < 2" using fl_four_thirds by simp
  have "\<lfloor>fl (m / l)\<rfloor> = 1" using lo hi by (simp add: floor_unique)
  then have i1: "mathFloor (fdiv (mathLog pf 1536) (mathLog pf 1024)) = Num 1"
    using l by (simp add: assms(1,2) fdiv.simps mathFloor.simps)
  have i2: "mathFloor (fdiv (mathLog pf 1048576) (mathLog pf 1024)) = Num 2"
    using l by (simp add: assms(1,3) fdiv.simps mathFloor.simps fl_two)
  have a: "formatFileSize pf 0 = ''0 Bytes''"
    by (simp add: formatFileSize_def)
  have b: "formatFileSize pf 1536 = ''1.5 KB''"
    by (simp only: formatFileSize_unfold [of 1536, simplified] i1 size_strings) simp
  have c: "formatFileSize pf 1048576 = ''1 MB''"
    by (simp only: formatFileSize_unfold [of 1048576, simplified] i2 size_strings) simp
  show ?thesis using a b c by simp
qed

theorem formatFileSize_examples_witness:
  "mathLog samplePlatform 1024 = Num (fl (6931471805599453 / 10 ^ 15))
   \<and> mathLog samplePlatform 1536 = Num (fl (7336936913707618 / 10 ^ 15))
   \<and> mathLog samplePlatform 1048576 = Num (2 * fl (6931471805599453 / 10 ^ 15))
   \<and> 6 \<le> fl (6931471805599453 / 10 ^ 15)
   \<and> fl (6931471805599453 / 10 ^ 15) \<le> fl (7336936913707618 / 10 ^ 15)
   \<and> fl (7336936913707618 / 10 ^ 15) \<le> 8
   \<and> formatFileSize samplePlatform 0 = ''0 Bytes''
   \<and> formatFileSize samplePlatform 1536 = ''1.5 KB''
   \<and> formatFileSize samplePlatform 1048576 = ''1 MB''"
proof -
  have h1: "mathLog samplePlatform 1024 = Num (fl (6931471805599453 / 10 ^ 15))"
    by (simp add: samplePlatform_def sampleLog_def)
  have h2: "mathLog samplePlatform 1536 = Num (fl (7336936913707618 / 10 ^ 15))"
    by (simp add: samplePlatform_def sampleLog_def)
  have h3: "mathLog samplePlatform 1048576 = Num (2 * fl (6931471805599453 / 10 ^ 15))"
    by (simp add: samplePlatform_def sampleLog_def)
  note b = sampleLog_bounds
  show ?thesis
    using h1 h2 h3 b formatFileSize_examples [OF h1 h2 h3 b] by simp
qed

text \<open>
  C10. Without an encoded result (\<^verbatim>\<open>compressedBlob\<close> is \<^verbatim>\<open>null\<close>) the download does
  nothing: no download is offered and nothing changes.
\<close>

theorem download_without_result:
  "compressedBlob (st w) = None \<Longrightarrow> downloadCompressedImage w = w"
  by (simp add: downloadCompressedImage_def)

theorem download_without_result_witness:
  "compressedBlob (st (initialWorld samplePage)) = None
   \<and> downloadCompressedImage (initialWorld samplePage) = initialWorld samplePage"
proof -
  have h: "compressedBlob (st (initialWorld samplePage)) = None"
    by (simp add: initialWorld_def initialState_def)
  show ?thesis using h download_without_result [OF h] by simp
qed

end
